theory Spec2Isabelle
  imports Complex_Main
begin

section \<open>Attendance ledger (app.py)\<close>

text \<open>
  The table \<open>Attendance\<close> of app.py: one row per mark, with the columns
  \<open>student_id\<close>, \<open>date\<close>, \<open>time_in\<close> and \<open>status\<close> (the autoincrement
  primary key \<open>id\<close> is the position of the row in the list). A calendar date is
  year, month, day; a timestamp is a number of seconds.
\<close>

datatype date = Date (year: nat) (month: nat) (day: nat)

record attendance =
  att_student_id :: int
  att_date :: date
  time_in :: nat
  status :: string

type_synonym ledger = "attendance list"

text \<open>
  The table \<open>Student\<close>: the column \<open>face_encoding\<close> is nullable text, \<open>None\<close> here when the
  column is NULL or the empty string (both falsy in \<open>if student.face_encoding\<close>).
\<close>

record 'e student =
  student_id :: int
  name :: string
  roll_number :: string
  student_face_encoding :: "'e option"

datatype mark_status = Attendance_marked | Already_marked_today

record recognized =
  rec_name :: string
  rec_roll_number :: string
  rec_status :: mark_status

text \<open>\<open>Attendance.query.filter_by(student_id=..., date=...).first()\<close>\<close>

definition filter_by_first :: "ledger \<Rightarrow> int \<Rightarrow> date \<Rightarrow> attendance option" where
  "filter_by_first db sid d =
     find (\<lambda>a. att_student_id a = sid \<and> att_date a = d) db"

text \<open>
  Lines 161-189 of \<open>mark_attendance\<close>: look the row of (student, today) up; insert
  and commit when there is none, report \<open>Already marked today\<close> otherwise. \<open>today\<close>
  and \<open>now\<close> are the readings of \<open>date.today()\<close> and \<open>datetime.utcnow()\<close>.
\<close>

definition mark_student ::
  "ledger \<Rightarrow> 'e student \<Rightarrow> date \<Rightarrow> nat \<Rightarrow> ledger \<times> recognized" where
  "mark_student db st today now =
     (case filter_by_first db (student_id st) today of
        None \<Rightarrow>
          (db @ [\<lparr>att_student_id = student_id st, att_date = today,
                  time_in = now, status = ''Present''\<rparr>],
           \<lparr>rec_name = name st, rec_roll_number = roll_number st,
            rec_status = Attendance_marked\<rparr>)
      | Some existing_attendance \<Rightarrow>
          (db,
           \<lparr>rec_name = name st, rec_roll_number = roll_number st,
            rec_status = Already_marked_today\<rparr>))"

text \<open>
  The inner loop \<open>for student in all_students\<close>: students without a stored
  encoding are passed over; the first student whose stored encoding matches the
  face is marked and the loop is left (\<open>break\<close>). \<open>matches\<close> stands for
  \<open>face_recognition.compare_faces([stored], face, tolerance=0.6)[0]\<close>, a library
  call.
\<close>

fun mark_face ::
  "('e \<Rightarrow> 'e \<Rightarrow> bool) \<Rightarrow> date \<Rightarrow> nat \<Rightarrow> 'e \<Rightarrow> 'e student list \<Rightarrow>
     ledger \<times> recognized list \<Rightarrow> ledger \<times> recognized list" where
  "mark_face matches today now fe [] (db, acc) = (db, acc)"
| "mark_face matches today now fe (st # sts) (db, acc) =
     (case student_face_encoding st of
        None \<Rightarrow> mark_face matches today now fe sts (db, acc)
      | Some stored_encoding \<Rightarrow>
          if matches stored_encoding fe
          then (let (db', r) = mark_student db st today now in (db', acc @ [r]))
          else mark_face matches today now fe sts (db, acc))"

text \<open>The student the inner loop stops at, if any.\<close>

definition first_match :: "('e \<Rightarrow> 'e \<Rightarrow> bool) \<Rightarrow> 'e \<Rightarrow> 'e student list \<Rightarrow> 'e student option" where
  "first_match matches fe sts =
     find (\<lambda>st. case student_face_encoding st of None \<Rightarrow> False
                 | Some stored_encoding \<Rightarrow> matches stored_encoding fe) sts"

text \<open>The outer loop \<open>for face_encoding in face_encodings\<close>.\<close>

fun mark_faces ::
  "('e \<Rightarrow> 'e \<Rightarrow> bool) \<Rightarrow> date \<Rightarrow> nat \<Rightarrow> 'e list \<Rightarrow> 'e student list \<Rightarrow>
     ledger \<times> recognized list \<Rightarrow> ledger \<times> recognized list" where
  "mark_faces matches today now [] all_students s = s"
| "mark_faces matches today now (fe # fes) all_students s =
     mark_faces matches today now fes all_students
       (mark_face matches today now fe all_students s)"

text \<open>
  One POST to \<open>/mark_attendance\<close>, after the image has been decoded and its face
  encodings extracted: the encodings found in the image, the students in the
  database, and the clock, read once for the request. The library calls of the
  loop (\<open>json.loads\<close> of a stored encoding, the comparison, the commit) are
  taken to return: the check comes before every insert, so the constraint of
  the table never refuses one.
\<close>

record 'e request =
  face_encodings :: "'e list"
  all_students :: "'e student list"
  req_today :: date
  req_now :: nat

datatype response =
    No_face_detected
  | Students_recognized "recognized list"
  | No_registered_students_recognized

definition mark_attendance ::
  "('e \<Rightarrow> 'e \<Rightarrow> bool) \<Rightarrow> 'e request \<Rightarrow> ledger \<Rightarrow> ledger \<times> response" where
  "mark_attendance matches rq db =
     (if length (face_encodings rq) = 0 then (db, No_face_detected)
      else
        (let (db', recognized_students) =
               mark_faces matches (req_today rq) (req_now rq)
                 (face_encodings rq) (all_students rq) (db, [])
         in if recognized_students \<noteq> []
            then (db', Students_recognized recognized_students)
            else (db', No_registered_students_recognized)))"

text \<open>A sequence of requests served one after the other, on the same database.\<close>

fun serve :: "('e \<Rightarrow> 'e \<Rightarrow> bool) \<Rightarrow> 'e request list \<Rightarrow> ledger \<Rightarrow> ledger" where
  "serve matches [] db = db"
| "serve matches (rq # rqs) db = serve matches rqs (fst (mark_attendance matches rq db))"

text \<open>The rows of the ledger for one student and one day.\<close>

definition records_of :: "ledger \<Rightarrow> int \<Rightarrow> date \<Rightarrow> attendance list" where
  "records_of db sid d = filter (\<lambda>a. att_student_id a = sid \<and> att_date a = d) db"

text \<open>The constraint \<open>unique_attendance\<close> of the table, as a property of the rows.\<close>

definition unique_attendance :: "ledger \<Rightarrow> bool" where
  "unique_attendance db \<longleftrightarrow> (\<forall>sid d. length (records_of db sid d) \<le> 1)"

section \<open>Face recognition (mediapipe_face_recognition.py)\<close>

subsection \<open>Data\<close>

text \<open>
  A decoded image is its rows of pixels (\<open>image.shape[:2]\<close> is the number of
  rows and the length of a row); the pixel type is left open. numpy arrays of
  floats are lists of reals, and a stored encoding holds numbers only: the
  theorems on the match use the order of the similarities and nothing of their
  arithmetic, and those on the encodings use whether a norm is zero. The
  rounding of the floats is not modelled. The one place where the source
  produces \<open>nan\<close> out of numbers (the division by a zero norm in
  \<open>generate_face_encoding\<close>) has a constructor of its own.
\<close>

type_synonym 'p image = "'p list list"

datatype np_array = Array "real list" | NaNs nat

datatype error = IndexError | UnicodeEncodeError | Engine_error string

text \<open>
  The lines that \<open>detect_faces\<close> prints (lines 58, 62, 74 and 102); each
  starts with a character outside ASCII.
\<close>

datatype message =
    Image_is_None
  | Processing_image nat nat
  | MediaPipe_detected nat
  | No_faces_detected_in_image

text \<open>One entry of \<open>results.detections\<close> of MediaPipe face detection.\<close>

record detection =
  bbox_xmin :: real
  bbox_ymin :: real
  bbox_width :: real
  bbox_height :: real
  score :: "real list"
  relative_keypoints :: "(real \<times> real) list"

record 'p face_info =
  bbox :: "int \<times> int \<times> int \<times> int"
  confidence :: real
  landmarks :: "(string \<times> real \<times> real) list"
  face_region :: "'p image"

text \<open>
  One entry of \<open>known_faces\<close>: a dictionary that may lack the key
  \<open>encoding\<close> (\<open>None\<close> here), and whose encoding may be \<open>None\<close> (\<open>Some None\<close>).
\<close>

record known_face =
  kf_id :: int
  kf_name :: string
  kf_roll_number :: string
  kf_encoding :: "real list option option"

record face_result =
  res_bbox :: "int \<times> int \<times> int \<times> int"
  res_confidence :: real
  similarity :: real
  identified :: bool
  student_info :: "known_face option"
  res_encoding :: np_array

text \<open>
  The object \<open>self\<close> and its surroundings: the two parameters set by
  \<open>__init__\<close>, \<open>print\<close> on the standard output of the process (it raises
  when the output cannot encode the line), and the engines the methods call,
  each a function that may raise:
  \<^item> \<open>face_detection_process\<close>: \<open>cv2.cvtColor\<close> to RGB and
    \<open>self.face_detection.process\<close>, giving \<open>results.detections\<close> (\<open>None\<close> as the
    empty list);
  \<^item> \<open>resize_to_rgb\<close>: \<open>cv2.resize(face_image, (160, 160))\<close> and the conversion
    to RGB;
  \<^item> \<open>face_mesh_process\<close>: \<open>self.face_mesh.process\<close>, giving the coordinates
    \<open>x, y, z\<close> of the landmarks of \<open>results.multi_face_landmarks[0]\<close> in one
    list, or \<open>None\<close> when no landmarks were found;
  \<^item> \<open>gray_resize_flatten\<close>: the conversion to grayscale,
    \<open>cv2.resize(gray, (32, 32))\<close> and \<open>flatten()\<close>, giving the values of the
    pixels (\<open>uint8\<close>).
\<close>

record 'p recognizer =
  encoding_size :: nat
  similarity_threshold :: real
  face_detection_process :: "'p image \<Rightarrow> error + detection list"
  resize_to_rgb :: "'p image \<Rightarrow> error + 'p image"
  face_mesh_process :: "'p image \<Rightarrow> error + real list option"
  gray_resize_flatten :: "'p image \<Rightarrow> error + nat list"
  stdout_print :: "message \<Rightarrow> error + unit"

text \<open>\<open>__init__\<close>, on given engines and a given standard output.\<close>

definition init ::
  "('p image \<Rightarrow> error + detection list) \<Rightarrow> ('p image \<Rightarrow> error + 'p image) \<Rightarrow>
   ('p image \<Rightarrow> error + real list option) \<Rightarrow> ('p image \<Rightarrow> error + nat list) \<Rightarrow>
   (message \<Rightarrow> error + unit) \<Rightarrow> 'p recognizer" where
  "init fd rs fm gr pr =
     \<lparr>encoding_size = 128, similarity_threshold = 3 / 10,
      face_detection_process = fd, resize_to_rgb = rs,
      face_mesh_process = fm, gray_resize_flatten = gr, stdout_print = pr\<rparr>"

subsection \<open>Python and numpy primitives\<close>

text \<open>\<open>int(x)\<close> of a float: rounding toward zero.\<close>

definition py_int :: "real \<Rightarrow> int" where
  "py_int r = (if 0 \<le> r then \<lfloor>r\<rfloor> else \<lceil>r\<rceil>)"

text \<open>
  The slice \<open>xs[start:stop]\<close>: a negative bound counts from the end, and both
  bounds are cut to the length.
\<close>

definition py_slice :: "int \<Rightarrow> int \<Rightarrow> 'a list \<Rightarrow> 'a list" where
  "py_slice start stop xs =
     (let n = int (length xs);
          lo = (if start < 0 then max 0 (start + n) else min start n);
          hi = (if stop < 0 then max 0 (stop + n) else min stop n)
      in take (nat (hi - lo)) (drop (nat lo) xs))"

definition image_width :: "'p image \<Rightarrow> nat" where
  "image_width img = (case img of [] \<Rightarrow> 0 | row # _ \<Rightarrow> length row)"

text \<open>\<open>image.size\<close>: the number of elements.\<close>

definition image_size :: "'p image \<Rightarrow> nat" where
  "image_size img = length (concat img)"

definition np_dot :: "real list \<Rightarrow> real list \<Rightarrow> real" where
  "np_dot a b = sum_list (map (\<lambda>(x, y). x * y) (zip a b))"

definition linalg_norm :: "real list \<Rightarrow> real" where
  "linalg_norm a = sqrt (sum_list (map (\<lambda>x. x * x) a))"

subsection \<open>\<open>detect_faces\<close>\<close>

definition point_names :: "string list" where
  "point_names =
     [''nose_tip'', ''left_eye'', ''right_eye'', ''mouth_center'', ''left_ear'', ''right_ear'']"

definition extract_key_landmarks :: "detection \<Rightarrow> (string \<times> real \<times> real) list" where
  "extract_key_landmarks detection =
     zip point_names (take (length point_names) (relative_keypoints detection))"

text \<open>
  The body of the loop over \<open>results.detections\<close> (lines 78-100): the box in
  pixels, the two \<open>max\<close> and the two \<open>min\<close>, and the crop
  \<open>image[y:y+height, x:x+width]\<close>. \<open>detection.score[0]\<close> raises on an empty list.
\<close>

definition pixel_bbox :: "'p image \<Rightarrow> detection \<Rightarrow> int \<times> int \<times> int \<times> int" where
  "pixel_bbox img detection =
     (let h = int (length img); w = int (image_width img);
          x = py_int (bbox_xmin detection * real_of_int w);
          y = py_int (bbox_ymin detection * real_of_int h);
          width = py_int (bbox_width detection * real_of_int w);
          height = py_int (bbox_height detection * real_of_int h);
          x = max 0 x;
          y = max 0 y;
          width = min width (w - x);
          height = min height (h - y)
      in (x, y, width, height))"

definition make_face_info :: "'p image \<Rightarrow> detection \<Rightarrow> error + 'p face_info" where
  "make_face_info img detection =
     (case pixel_bbox img detection of (x, y, width, height) \<Rightarrow>
        (case score detection of
           [] \<Rightarrow> Inl IndexError
         | s # _ \<Rightarrow>
             Inr \<lparr>bbox = (x, y, width, height), confidence = s,
                  landmarks = extract_key_landmarks detection,
                  face_region = map (py_slice x (x + width)) (py_slice y (y + height) img)\<rparr>))"

fun detections_loop ::
  "'p image \<Rightarrow> detection list \<Rightarrow> 'p face_info list \<Rightarrow> error + 'p face_info list" where
  "detections_loop img [] faces = Inr faces"
| "detections_loop img (detection # detections) faces =
     (case make_face_info img detection of
        Inl e \<Rightarrow> Inl e
      | Inr face_info \<Rightarrow> detections_loop img detections (faces @ [face_info]))"

text \<open>
  The \<open>try\<close> block of \<open>detect_faces\<close> (lines 62-104), with what it raises: the
  print of the shape, the engine, the print of the number of detections and the
  loop, or the print that no face was detected.
\<close>

definition detect_faces_try :: "'p recognizer \<Rightarrow> 'p image \<Rightarrow> error + 'p face_info list" where
  "detect_faces_try self img =
     (case stdout_print self (Processing_image (length img) (image_width img)) of
        Inl e \<Rightarrow> Inl e
      | Inr u \<Rightarrow>
          (case face_detection_process self img of
             Inl e \<Rightarrow> Inl e
           | Inr detections \<Rightarrow>
               if detections \<noteq> []
               then (case stdout_print self (MediaPipe_detected (length detections)) of
                       Inl e \<Rightarrow> Inl e
                     | Inr u \<Rightarrow> detections_loop img detections [])
               else (case stdout_print self No_faces_detected_in_image of
                       Inl e \<Rightarrow> Inl e
                     | Inr u \<Rightarrow> Inr [])))"

text \<open>
  \<open>detect_faces\<close>, with what it raises. For \<open>None\<close> it prints and returns the
  empty list, before the \<open>try\<close> statement: what that print raises leaves the
  function. What the \<open>try\<close> block raises is caught, logged
  (\<open>self.logger.error\<close>, which handles its own errors) and answered with the
  empty list.
\<close>

definition detect_faces ::
  "'p recognizer \<Rightarrow> 'p image option \<Rightarrow> error + 'p face_info list" where
  "detect_faces self img =
     (case img of
        None \<Rightarrow>
          (case stdout_print self Image_is_None of Inl e \<Rightarrow> Inl e | Inr u \<Rightarrow> Inr [])
      | Some img \<Rightarrow>
          (case detect_faces_try self img of Inl e \<Rightarrow> Inr [] | Inr faces \<Rightarrow> Inr faces))"

subsection \<open>\<open>generate_face_encoding\<close> and \<open>_generate_basic_encoding\<close>\<close>

text \<open>
  The fallback: the pixel values divided by 255, cut or padded with zeros to
  \<open>encoding_size\<close>; an array of zeros when anything raises.
\<close>

definition generate_basic_encoding :: "'p recognizer \<Rightarrow> 'p image \<Rightarrow> real list" where
  "generate_basic_encoding self face_image =
     (case gray_resize_flatten self face_image of
        Inl e \<Rightarrow> replicate (encoding_size self) 0
      | Inr gray \<Rightarrow>
          (let encoding = map (\<lambda>v. real v / 255) gray
           in if length encoding > encoding_size self
              then take (encoding_size self) encoding
              else if length encoding < encoding_size self
              then encoding @ replicate (encoding_size self - length encoding) 0
              else encoding))"

text \<open>
  \<open>encoding / np.linalg.norm(encoding)\<close>: numpy divides elementwise, and by a
  zero norm (all coordinates zero) every element is \<open>0/0\<close>, that is \<open>nan\<close>, with
  a warning and no exception.
\<close>

definition normalize :: "real list \<Rightarrow> np_array" where
  "normalize encoding =
     (if linalg_norm encoding = 0 then NaNs (length encoding)
      else Array (map (\<lambda>x. x / linalg_norm encoding) encoding))"

definition generate_face_encoding ::
  "'p recognizer \<Rightarrow> 'p image option \<Rightarrow> np_array option" where
  "generate_face_encoding self face_image =
     (case face_image of
        None \<Rightarrow> None
      | Some img \<Rightarrow>
          if image_size img = 0 then None
          else
            (case resize_to_rgb self img of
               Inl e \<Rightarrow> None
             | Inr face_rgb \<Rightarrow>
                 (case face_mesh_process self face_rgb of
                    Inl e \<Rightarrow> None
                  | Inr (Some landmark_points) \<Rightarrow>
                      Some (normalize (take (encoding_size self) landmark_points))
                  | Inr None \<Rightarrow>
                      Some (Array (generate_basic_encoding self face_rgb)))))"

subsection \<open>\<open>compare_faces\<close>\<close>

definition compare_faces :: "real list option \<Rightarrow> real list option \<Rightarrow> real" where
  "compare_faces encoding1 encoding2 =
     (case (encoding1, encoding2) of
        (Some e1, Some e2) \<Rightarrow>
          (let min_len = min (length e1) (length e2);
               enc1 = take min_len e1;
               enc2 = take min_len e2;
               dot_product = np_dot enc1 enc2;
               norm1 = linalg_norm enc1;
               norm2 = linalg_norm enc2
           in if norm1 = 0 \<or> norm2 = 0 then 0
              else (dot_product / (norm1 * norm2) + 1) / 2)
      | _ \<Rightarrow> 0)"

subsection \<open>\<open>identify_faces\<close>\<close>

text \<open>
  The loop over \<open>known_faces\<close> (lines 262-268), on the pair
  \<open>(best_match, best_similarity)\<close>.
\<close>

fun known_faces_loop ::
  "real \<Rightarrow> real list \<Rightarrow> known_face list \<Rightarrow> known_face option \<times> real \<Rightarrow>
     known_face option \<times> real" where
  "known_faces_loop threshold face_encoding [] best = best"
| "known_faces_loop threshold face_encoding (known_face # rest) (best_match, best_similarity) =
     (case kf_encoding known_face of
        None \<Rightarrow> known_faces_loop threshold face_encoding rest (best_match, best_similarity)
      | Some enc \<Rightarrow>
          (let similarity = compare_faces (Some face_encoding) enc
           in if similarity > best_similarity \<and> similarity > threshold
              then known_faces_loop threshold face_encoding rest (Some known_face, similarity)
              else known_faces_loop threshold face_encoding rest (best_match, best_similarity)))"

text \<open>Lines 258-278: the match of one encoded face against the known faces.\<close>

definition match_face ::
  "real \<Rightarrow> 'p face_info \<Rightarrow> real list \<Rightarrow> known_face list \<Rightarrow> face_result" where
  "match_face threshold face face_encoding known_faces =
     (case known_faces_loop threshold face_encoding known_faces (None, 0) of
        (best_match, best_similarity) \<Rightarrow>
          \<lparr>res_bbox = bbox face, res_confidence = confidence face,
           similarity = best_similarity, identified = (best_match \<noteq> None),
           student_info = best_match, res_encoding = Array face_encoding\<rparr>)"

text \<open>
  The body of the loop over the detected faces. A face without an encoding adds
  nothing. For an encoding of \<open>nan\<close> every comparison \<open>similarity > ...\<close> is
  false (\<open>compare_faces\<close> gives \<open>nan\<close> or 0.0), so the result keeps
  \<open>best_match = None\<close> and \<open>best_similarity = 0.0\<close>.
\<close>

definition identify_face ::
  "'p recognizer \<Rightarrow> known_face list \<Rightarrow> 'p face_info \<Rightarrow> face_result list" where
  "identify_face self known_faces face =
     (case generate_face_encoding self (Some (face_region face)) of
        None \<Rightarrow> []
      | Some (Array face_encoding) \<Rightarrow>
          [match_face (similarity_threshold self) face face_encoding known_faces]
      | Some (NaNs n) \<Rightarrow>
          [\<lparr>res_bbox = bbox face, res_confidence = confidence face,
            similarity = 0, identified = False,
            student_info = None, res_encoding = NaNs n\<rparr>])"

text \<open>
  The faces that \<open>identify_faces\<close> goes through: those \<open>detect_faces\<close>
  returns; none when it raises, since the call stands in the \<open>try\<close> block of
  \<open>identify_faces\<close>, whose handler logs and lets the empty list be returned.
\<close>

definition detected_faces :: "'p recognizer \<Rightarrow> 'p image option \<Rightarrow> 'p face_info list" where
  "detected_faces self img =
     (case detect_faces self img of Inl e \<Rightarrow> [] | Inr faces \<Rightarrow> faces)"

definition identify_faces ::
  "'p recognizer \<Rightarrow> 'p image option \<Rightarrow> known_face list \<Rightarrow> face_result list" where
  "identify_faces self img known_faces =
     concat (map (identify_face self known_faces) (detected_faces self img))"

text \<open>
  The similarity of a face encoding to one known face (none when the entry has
  no key \<open>encoding\<close>), and the similarities to the known faces, in the order
  of the list.
\<close>

definition score_of :: "real list \<Rightarrow> known_face \<Rightarrow> real option" where
  "score_of face_encoding known_face =
     map_option (compare_faces (Some face_encoding)) (kf_encoding known_face)"

definition scores :: "real list \<Rightarrow> known_face list \<Rightarrow> real list" where
  "scores face_encoding known_faces = List.map_filter (score_of face_encoding) known_faces"

text \<open>The sum under the root of \<open>np.linalg.norm\<close>.\<close>

definition sum_squares :: "real list \<Rightarrow> real" where
  "sum_squares a = sum_list (map (\<lambda>x. x * x) a)"

section \<open>Concrete inputs\<close>

text \<open>
  The inputs at which the theorems below are evaluated: a detected face, known
  faces with encodings of two coordinates, an image of 4 by 4 pixels of one gray
  level, three detections (the third with a relative box that starts right of
  the image), and four recognizers: one whose mesh finds landmarks, one whose
  mesh finds none (so that the fallback runs, on crops of one gray level), one
  whose detection engine raises, and one whose standard output cannot encode
  the lines printed.
\<close>

definition face0 :: "nat face_info" where
  "face0 = \<lparr>bbox = (0, 0, 1, 1), confidence = 9 / 10, landmarks = [], face_region = [[0]]\<rparr>"

definition known_a :: known_face where
  "known_a = \<lparr>kf_id = 1, kf_name = ''A'', kf_roll_number = ''R1'',
              kf_encoding = Some (Some [0, 1])\<rparr>"

definition known_a' :: known_face where
  "known_a' = \<lparr>kf_id = 2, kf_name = ''A2'', kf_roll_number = ''R2'',
               kf_encoding = Some (Some [0, 2])\<rparr>"

definition known_b :: known_face where
  "known_b = \<lparr>kf_id = 3, kf_name = ''B'', kf_roll_number = ''R3'',
              kf_encoding = Some (Some [- 3, 4])\<rparr>"

definition image0 :: "nat image" where
  "image0 = [[128, 128, 128, 128], [128, 128, 128, 128],
             [128, 128, 128, 128], [128, 128, 128, 128]]"

definition det_left :: detection where
  "det_left = \<lparr>bbox_xmin = 0, bbox_ymin = 0, bbox_width = 1 / 2, bbox_height = 1 / 2,
               score = [9 / 10], relative_keypoints = []\<rparr>"

definition det_right :: detection where
  "det_right = \<lparr>bbox_xmin = 1 / 2, bbox_ymin = 0, bbox_width = 1 / 2, bbox_height = 1 / 2,
                score = [8 / 10], relative_keypoints = []\<rparr>"

definition det_out :: detection where
  "det_out = \<lparr>bbox_xmin = 5 / 4, bbox_ymin = 1 / 4, bbox_width = 1 / 2, bbox_height = 1 / 2,
              score = [8 / 10], relative_keypoints = []\<rparr>"

definition recognizer0 :: "nat recognizer" where
  "recognizer0 =
     init (\<lambda>img. Inr [det_left, det_right, det_out]) (\<lambda>img. Inr img)
       (\<lambda>img. Inr (Some [1, 0, 0])) (\<lambda>img. Inr (replicate 1024 128)) (\<lambda>m. Inr ())"

definition black_face :: "nat image" where
  "black_face = [[0, 0], [0, 0]]"

definition gray_face :: "nat image" where
  "gray_face = [[128, 128], [128, 128]]"

definition recognizer_fallback :: "nat recognizer" where
  "recognizer_fallback =
     init (\<lambda>img. Inr []) (\<lambda>img. Inr img)
       (\<lambda>img. Inr None) (\<lambda>img. Inr (replicate 1024 (hd (concat img)))) (\<lambda>m. Inr ())"

definition recognizer_failing :: "nat recognizer" where
  "recognizer_failing =
     init (\<lambda>img. Inl (Engine_error ''graph'')) (\<lambda>img. Inr img)
       (\<lambda>img. Inr None) (\<lambda>img. Inr (replicate 1024 (hd (concat img)))) (\<lambda>m. Inr ())"


section \<open>The ledger holds at most one row per student and day\<close>

lemma filter_by_first_None:
  "filter_by_first db sid d = None \<longleftrightarrow> records_of db sid d = []"
  by (auto simp: filter_by_first_def records_of_def find_None_iff filter_empty_conv)

lemma records_of_append:
  "records_of (db @ [a]) sid d =
     records_of db sid d @ (if att_student_id a = sid \<and> att_date a = d then [a] else [])"
  by (simp add: records_of_def)

lemma mark_student_unique:
  assumes "unique_attendance db"
  shows "unique_attendance (fst (mark_student db st today now))"
proof (cases "filter_by_first db (student_id st) today")
  case None
  then have empty: "records_of db (student_id st) today = []"
    by (simp add: filter_by_first_None)
  have "length (records_of (fst (mark_student db st today now)) sid d) \<le> 1" for sid d
  proof (cases "sid = student_id st \<and> d = today")
    case True
    with None empty show ?thesis
      by (simp add: mark_student_def records_of_append)
  next
    case False
    with None assms show ?thesis
      by (auto simp: mark_student_def records_of_append unique_attendance_def)
  qed
  then show ?thesis by (simp add: unique_attendance_def)
next
  case (Some a)
  with assms show ?thesis by (simp add: mark_student_def)
qed

lemma mark_face_unique:
  "unique_attendance db \<Longrightarrow>
   unique_attendance (fst (mark_face matches today now fe sts (db, acc)))"
proof (induction sts)
  case Nil
  then show ?case by simp
next
  case (Cons st sts)
  show ?case
  proof (cases "student_face_encoding st")
    case None
    with Cons show ?thesis by simp
  next
    case (Some enc)
    show ?thesis
    proof (cases "matches enc fe")
      case True
      with Some mark_student_unique [OF Cons.prems, of st today now] show ?thesis
        by (simp add: case_prod_beta)
    next
      case False
      with Some Cons show ?thesis by simp
    qed
  qed
qed

lemma mark_faces_unique:
  "unique_attendance (fst s) \<Longrightarrow>
   unique_attendance (fst (mark_faces matches today now fes sts s))"
proof (induction fes arbitrary: s)
  case Nil
  then show ?case by simp
next
  case (Cons fe fes)
  obtain db acc where s: "s = (db, acc)" by (cases s)
  with Cons.prems have "unique_attendance (fst (mark_face matches today now fe sts s))"
    by (simp add: mark_face_unique)
  then show ?case by (simp add: Cons.IH)
qed

lemma mark_attendance_unique:
  assumes "unique_attendance db"
  shows "unique_attendance (fst (mark_attendance matches rq db))"
proof -
  have "unique_attendance
          (fst (mark_faces matches (req_today rq) (req_now rq)
                  (face_encodings rq) (all_students rq) (db, [])))"
    using assms by (simp add: mark_faces_unique)
  with assms show ?thesis
    by (simp add: mark_attendance_def case_prod_beta)
qed

lemma serve_unique:
  "unique_attendance db \<Longrightarrow> unique_attendance (serve matches rqs db)"
  by (induction rqs arbitrary: db) (simp_all add: mark_attendance_unique)

lemma unique_attendance_Nil: "unique_attendance []"
  by (simp add: unique_attendance_def records_of_def)

lemma mark_student_first:
  "records_of db (student_id st) today = [] \<Longrightarrow>
   rec_status (snd (mark_student db st today now)) = Attendance_marked \<and>
   length (records_of (fst (mark_student db st today now)) (student_id st) today) = 1"
  using filter_by_first_None [of db "student_id st" today]
  by (simp add: mark_student_def records_of_append)

lemma mark_student_present:
  "records_of (fst (mark_student db st today now)) (student_id st) today \<noteq> []"
  using filter_by_first_None [of db "student_id st" today]
  by (cases "filter_by_first db (student_id st) today")
     (auto simp: mark_student_def records_of_append)

lemma mark_student_again:
  "records_of db (student_id st) today \<noteq> [] \<Longrightarrow>
   mark_student db st today now =
     (db, \<lparr>rec_name = name st, rec_roll_number = roll_number st,
           rec_status = Already_marked_today\<rparr>)"
  using filter_by_first_None [of db "student_id st" today]
  by (cases "filter_by_first db (student_id st) today") (auto simp: mark_student_def)

lemma mark_face_first_match:
  "mark_face matches today now fe sts (db, acc) =
     (case first_match matches fe sts of
        None \<Rightarrow> (db, acc)
      | Some st \<Rightarrow> (fst (mark_student db st today now),
                   acc @ [snd (mark_student db st today now)]))"
  by (induction sts) (auto simp: first_match_def case_prod_beta split: option.splits)

lemma mark_attendance_single:
  assumes "first_match matches fe sts = Some st"
  shows "mark_attendance matches
           \<lparr>face_encodings = [fe], all_students = sts, req_today = today, req_now = now\<rparr> db =
         (fst (mark_student db st today now),
          Students_recognized [snd (mark_student db st today now)])"
  using assms by (simp add: mark_attendance_def mark_face_first_match)

text \<open>
  Claim C1. After any sequence of requests served one after the other, from the
  empty ledger or from any ledger that meets the constraint of the table, the
  ledger holds at most one row for every student and day. When
  the ledger has no row for the student today, two consecutive requests with a
  face of that student answer \<open>Attendance marked\<close> and then
  \<open>Already marked today\<close>; the second request leaves the ledger as it is, and
  exactly one row for the student and today exists afterwards.
\<close>

theorem attendance_at_most_once:
  assumes "unique_attendance db0"
  shows "let db = serve matches rqs db0 in
     length (records_of db sid d) \<le> 1 \<and>
     (first_match matches fe sts = Some st \<and> records_of db (student_id st) today = [] \<longrightarrow>
        (let rq1 = \<lparr>face_encodings = [fe], all_students = sts,
                    req_today = today, req_now = t1\<rparr>;
             rq2 = \<lparr>face_encodings = [fe], all_students = sts,
                    req_today = today, req_now = t2\<rparr>;
             db1 = fst (mark_attendance matches rq1 db);
             db2 = fst (mark_attendance matches rq2 db1)
         in snd (mark_attendance matches rq1 db) =
              Students_recognized
                [\<lparr>rec_name = name st, rec_roll_number = roll_number st,
                  rec_status = Attendance_marked\<rparr>] \<and>
            snd (mark_attendance matches rq2 db1) =
              Students_recognized
                [\<lparr>rec_name = name st, rec_roll_number = roll_number st,
                  rec_status = Already_marked_today\<rparr>] \<and>
            db2 = db1 \<and>
            length (records_of db2 (student_id st) today) = 1))"
proof -
  define db where "db = serve matches rqs db0"
  have inv: "unique_attendance db"
    unfolding db_def by (rule serve_unique [OF assms])
  then have one: "length (records_of db sid d) \<le> 1"
    by (simp add: unique_attendance_def)
  let ?db1 = "fst (mark_student db st today t1)"
  let ?marked = "\<lparr>rec_name = name st, rec_roll_number = roll_number st,
                   rec_status = Attendance_marked\<rparr>"
  let ?already = "\<lparr>rec_name = name st, rec_roll_number = roll_number st,
                    rec_status = Already_marked_today\<rparr>"
  have two: "snd (mark_student db st today t1) = ?marked \<and>
             mark_student ?db1 st today t2 = (?db1, ?already) \<and>
             length (records_of ?db1 (student_id st) today) = 1"
    if un: "records_of db (student_id st) today = []"
  proof -
    have none: "filter_by_first db (student_id st) today = None"
      using un by (simp add: filter_by_first_None)
    have r1: "snd (mark_student db st today t1) = ?marked"
      using none by (simp add: mark_student_def)
    have present: "records_of ?db1 (student_id st) today \<noteq> []"
      by (rule mark_student_present)
    have again: "mark_student ?db1 st today t2 = (?db1, ?already)"
      by (rule mark_student_again [OF present])
    have len: "length (records_of ?db1 (student_id st) today) = 1"
      using mark_student_first [OF un] by simp
    show ?thesis
      using r1 again len by simp
  qed
  show ?thesis
    unfolding db_def [symmetric] Let_def
  proof (intro conjI impI; (elim conjE)?)
    show "length (records_of db sid d) \<le> 1" by (rule one)
  qed (simp_all add: mark_attendance_single two)
qed

theorem attendance_at_most_once_witness:
  "unique_attendance [] \<and>
   first_match (=) (1::nat)
     [\<lparr>student_id = 7, name = ''A'', roll_number = ''R1'', student_face_encoding = Some 1\<rparr>] =
     Some \<lparr>student_id = 7, name = ''A'', roll_number = ''R1'', student_face_encoding = Some 1\<rparr> \<and>
   records_of (serve (=) ([] :: nat request list) []) 7 (Date 2024 9 2) = [] \<and>
   fst (mark_attendance (=)
     \<lparr>face_encodings = [1::nat],
       all_students = [\<lparr>student_id = 7, name = ''A'', roll_number = ''R1'',
                        student_face_encoding = Some 1\<rparr>],
       req_today = Date 2024 9 2, req_now = 29400\<rparr>
     (fst (mark_attendance (=)
        \<lparr>face_encodings = [1::nat],
          all_students = [\<lparr>student_id = 7, name = ''A'', roll_number = ''R1'',
                        student_face_encoding = Some 1\<rparr>],
          req_today = Date 2024 9 2, req_now = 29100\<rparr> []))) =
   [\<lparr>att_student_id = 7, att_date = Date 2024 9 2, time_in = 29100, status = ''Present''\<rparr>]"
  using attendance_at_most_once [OF unique_attendance_Nil, of "(=)" "[]" 7 "Date 2024 9 2" "1::nat"
      "[\<lparr>student_id = 7, name = ''A'', roll_number = ''R1'', student_face_encoding = Some 1\<rparr>]"
      "\<lparr>student_id = 7, name = ''A'', roll_number = ''R1'', student_face_encoding = Some 1\<rparr>"
      "Date 2024 9 2" 29100 29400]
  by (simp add: first_match_def records_of_def mark_attendance_def mark_student_def
      filter_by_first_def unique_attendance_Nil)

section \<open>The match against the known faces\<close>

lemma scores_Nil: "scores q [] = []"
  by (simp add: scores_def map_filter_simps)

lemma scores_Cons:
  "scores q (kf # kfs) =
     (case score_of q kf of None \<Rightarrow> scores q kfs | Some s \<Rightarrow> s # scores q kfs)"
  by (simp add: scores_def map_filter_simps split: option.splits)

lemma set_scores:
  "set (scores q known) =
     {s. \<exists>kf \<in> set known. \<exists>enc. kf_encoding kf = Some enc \<and> s = compare_faces (Some q) enc}"
proof (induction known)
  case Nil
  then show ?case by (simp add: scores_Nil)
next
  case (Cons kf kfs)
  show ?case
  proof (cases "kf_encoding kf")
    case None
    with Cons show ?thesis by (auto simp: scores_Cons score_of_def)
  next
    case (Some enc)
    with Cons show ?thesis by (auto simp: scores_Cons score_of_def)
  qed
qed

lemma loop_step_None:
  "score_of q kf = None \<Longrightarrow>
   known_faces_loop thr q (kf # rest) (bm, bs) = known_faces_loop thr q rest (bm, bs)"
  by (auto simp: score_of_def)

lemma loop_step_update:
  "score_of q kf = Some s \<Longrightarrow> s > bs \<Longrightarrow> s > thr \<Longrightarrow>
   known_faces_loop thr q (kf # rest) (bm, bs) = known_faces_loop thr q rest (Some kf, s)"
  by (auto simp: score_of_def Let_def)

lemma loop_step_keep:
  "score_of q kf = Some s \<Longrightarrow> \<not> (s > bs \<and> s > thr) \<Longrightarrow>
   known_faces_loop thr q (kf # rest) (bm, bs) = known_faces_loop thr q rest (bm, bs)"
  by (auto simp: score_of_def Let_def)

lemma loop_mono: "bs \<le> snd (known_faces_loop thr q known (bm, bs))"
proof (induction known arbitrary: bm bs)
  case Nil
  then show ?case by simp
next
  case (Cons kf rest)
  have a: "bs \<le> snd (known_faces_loop thr q rest (bm, bs))" by (rule Cons.IH)
  have b: "s \<le> snd (known_faces_loop thr q rest (Some kf, s))" for s by (rule Cons.IH)
  show ?case
  proof (cases "score_of q kf")
    case None
    with a show ?thesis by (simp add: loop_step_None del: known_faces_loop.simps)
  next
    case (Some s)
    show ?thesis
    proof (cases "s > bs \<and> s > thr")
      case True
      then have "bs \<le> s" by simp
      also note b [of s]
      finally show ?thesis using loop_step_update [OF Some, of bs thr] True by simp
    next
      case False
      show ?thesis using loop_step_keep [OF Some False] a by simp
    qed
  qed
qed

lemma Max_insert_absorb:
  fixes x y :: real
  assumes "finite A" and "x \<le> y"
  shows "Max (insert x (insert y A)) = Max (insert y A)"
proof -
  have "Max (insert x (insert y A)) = max x (Max (insert y A))"
    using assms(1) by (intro Max_insert) auto
  moreover have "y \<le> Max (insert y A)"
    using assms(1) by (intro Max_ge) auto
  ultimately show ?thesis using assms(2) by simp
qed

text \<open>The similarity kept by the loop: the greatest of the start value and the scores above the threshold.\<close>

lemma loop_similarity:
  "snd (known_faces_loop thr q known (bm, bs)) =
     Max (insert bs {s \<in> set (scores q known). s > thr})"
proof (induction known arbitrary: bm bs)
  case Nil
  then show ?case by (simp add: scores_Nil)
next
  case (Cons kf rest)
  let ?S = "{t \<in> set (scores q rest). t > thr}"
  have fin: "finite ?S" by simp
  show ?case
  proof (cases "score_of q kf")
    case None
    then have "{t \<in> set (scores q (kf # rest)). t > thr} = ?S"
      by (simp add: scores_Cons)
    with None Cons.IH show ?thesis by (simp add: loop_step_None del: known_faces_loop.simps)
  next
    case (Some s)
    show ?thesis
    proof (cases "s > thr")
      case above: True
      have eq: "{t \<in> set (scores q (kf # rest)). t > thr} = insert s ?S"
        using Some above by (auto simp: scores_Cons)
      show ?thesis
      proof (cases "s > bs")
        case True
        then have "Max (insert bs (insert s ?S)) = Max (insert s ?S)"
          using fin by (intro Max_insert_absorb) simp_all
        moreover have "known_faces_loop thr q (kf # rest) (bm, bs) =
                       known_faces_loop thr q rest (Some kf, s)"
          using Some above True by (intro loop_step_update) auto
        ultimately show ?thesis using Cons.IH eq by simp
      next
        case False
        have "insert bs (insert s ?S) = insert s (insert bs ?S)" by auto
        moreover have "Max (insert s (insert bs ?S)) = Max (insert bs ?S)"
          using fin False by (intro Max_insert_absorb) simp_all
        ultimately have "Max (insert bs (insert s ?S)) = Max (insert bs ?S)" by simp
        moreover have "known_faces_loop thr q (kf # rest) (bm, bs) =
                       known_faces_loop thr q rest (bm, bs)"
          using Some False by (intro loop_step_keep) auto
        ultimately show ?thesis using Cons.IH eq by simp
      qed
    next
      case False
      then have eq: "{t \<in> set (scores q (kf # rest)). t > thr} = ?S"
        using Some by (auto simp: scores_Cons)
      have "known_faces_loop thr q (kf # rest) (bm, bs) =
            known_faces_loop thr q rest (bm, bs)"
        using Some False by (intro loop_step_keep) auto
      with Cons.IH eq show ?thesis by simp
    qed
  qed
qed

text \<open>The match kept by the loop: the first known face with the similarity kept, when the loop raised it.\<close>

lemma loop_match:
  "(snd (known_faces_loop thr q known (bm, bs)) > bs \<longrightarrow>
      snd (known_faces_loop thr q known (bm, bs)) > thr \<and>
      fst (known_faces_loop thr q known (bm, bs)) =
        find (\<lambda>kf. score_of q kf = Some (snd (known_faces_loop thr q known (bm, bs)))) known) \<and>
   (snd (known_faces_loop thr q known (bm, bs)) = bs \<longrightarrow>
      fst (known_faces_loop thr q known (bm, bs)) = bm)"
proof (induction known arbitrary: bm bs)
  case Nil
  then show ?case by simp
next
  case (Cons kf rest)
  show ?case
  proof (cases "score_of q kf")
    case None
    then have step: "known_faces_loop thr q (kf # rest) (bm, bs) =
                     known_faces_loop thr q rest (bm, bs)"
      by (rule loop_step_None)
    show ?thesis unfolding step using None Cons.IH [of bs bm] by simp
  next
    case (Some s)
    show ?thesis
    proof (cases "s > bs \<and> s > thr")
      case True
      let ?r = "known_faces_loop thr q rest (Some kf, s)"
      have step: "known_faces_loop thr q (kf # rest) (bm, bs) = ?r"
        using Some True by (intro loop_step_update) auto
      have mono: "s \<le> snd ?r" by (rule loop_mono)
      show ?thesis
      proof (cases "snd ?r = s")
        case eq: True
        with Cons.IH [of s "Some kf"] have "fst ?r = Some kf" by simp
        with eq True Some show ?thesis unfolding step by simp
      next
        case False
        with mono have gt: "snd ?r > s" by simp
        with Cons.IH [of s "Some kf"] have
          "snd ?r > thr" "fst ?r = find (\<lambda>kf. score_of q kf = Some (snd ?r)) rest"
          by simp_all
        with gt True Some show ?thesis unfolding step by simp
      qed
    next
      case False
      let ?r = "known_faces_loop thr q rest (bm, bs)"
      have step: "known_faces_loop thr q (kf # rest) (bm, bs) = ?r"
        using Some False by (intro loop_step_keep) auto
      show ?thesis
      proof (cases "snd ?r > bs")
        case gt: True
        with Cons.IH [of bs bm] have
          *: "snd ?r > thr" "fst ?r = find (\<lambda>kf. score_of q kf = Some (snd ?r)) rest"
          by simp_all
        with gt False have "s \<noteq> snd ?r" by auto
        with * gt Some show ?thesis unfolding step by simp
      next
        case False
        with loop_mono [of bs thr q rest bm] have "snd ?r = bs" by simp
        with Cons.IH [of bs bm] show ?thesis unfolding step by simp
      qed
    qed
  qed
qed

lemma Max_above_threshold:
  fixes S :: "real set"
  assumes "finite S" and "0 \<le> thr" and "s \<in> S" and "s > thr"
  shows "Max (insert 0 {t \<in> S. t > thr}) = Max S"
proof (rule Max_eqI)
  show "finite (insert 0 {t \<in> S. t > thr})" using assms(1) by simp
  have "s \<le> Max S" using assms(1,3) by (rule Max_ge)
  with assms(2,4) have pos: "0 < Max S" and above: "thr < Max S" by simp_all
  have "Max S \<in> S" using assms(1,3) by (intro Max_in) auto
  with above show "Max S \<in> insert 0 {t \<in> S. t > thr}" by simp
  fix y assume "y \<in> insert 0 {t \<in> S. t > thr}"
  then show "y \<le> Max S" using pos assms(1) by (auto intro: Max_ge)
qed

lemma Max_below_threshold:
  fixes S :: "real set"
  assumes "\<not> (\<exists>s \<in> S. s > thr)"
  shows "Max (insert 0 {t \<in> S. t > thr}) = 0"
proof -
  from assms have e: "{t \<in> S. t > thr} = {}" by auto
  show ?thesis unfolding e by simp
qed

lemma score_of_in_scores:
  "s \<in> set (scores q known) \<longleftrightarrow> (\<exists>kf \<in> set known. score_of q kf = Some s)"
  by (auto simp: set_scores score_of_def)

text \<open>The loop of \<open>identify_faces\<close>, from its start \<open>(None, 0.0)\<close>, with a threshold that is not negative.\<close>

lemma loop_start_above:
  assumes thr: "0 \<le> thr" and s: "s \<in> set (scores q known)" "s > thr"
  shows "known_faces_loop thr q known (None, 0) =
           (find (\<lambda>kf. score_of q kf = Some (Max (set (scores q known)))) known,
            Max (set (scores q known)))"
    and "find (\<lambda>kf. score_of q kf = Some (Max (set (scores q known)))) known \<noteq> None"
proof -
  let ?r = "known_faces_loop thr q known (None, 0)"
  let ?M = "Max (set (scores q known))"
  have sim: "snd ?r = ?M"
    using Max_above_threshold [OF _ thr s] by (simp add: loop_similarity)
  have "s \<le> ?M" using s(1) by (intro Max_ge) auto
  with thr s(2) have pos: "0 < snd ?r" using sim by simp
  with loop_match [of 0 thr q known None] sim
  have "fst ?r = find (\<lambda>kf. score_of q kf = Some ?M) known" by simp
  with sim show "?r = (find (\<lambda>kf. score_of q kf = Some ?M) known, ?M)"
    by (simp add: prod_eq_iff)
  have "?M \<in> set (scores q known)" using s(1) by (intro Max_in) auto
  then obtain kf where "kf \<in> set known" "score_of q kf = Some ?M"
    by (auto simp: score_of_in_scores)
  then show "find (\<lambda>kf. score_of q kf = Some ?M) known \<noteq> None"
    by (auto simp: find_None_iff)
qed

lemma loop_start_below:
  assumes "\<not> (\<exists>s \<in> set (scores q known). s > thr)"
  shows "known_faces_loop thr q known (None, 0) = (None, 0)"
proof -
  let ?r = "known_faces_loop thr q known (None, 0)"
  have sim: "snd ?r = 0"
    using Max_below_threshold [OF assms] by (simp add: loop_similarity)
  with loop_match [of 0 thr q known None] have "fst ?r = None" by simp
  with sim show ?thesis by (simp add: prod_eq_iff)
qed

text \<open>
  Claim C2. With a threshold that is not negative (\<open>__init__\<close> sets 0.3), the
  flag \<open>identified\<close> of the match is true exactly when some known face with
  an encoding has a similarity strictly greater than the threshold; when the
  greatest similarity equals the threshold, \<open>identified\<close> is false.
\<close>

theorem identified_iff_above_threshold:
  assumes "0 \<le> thr"
  shows "(identified (match_face thr face q known) \<longleftrightarrow>
            (\<exists>kf \<in> set known. \<exists>enc. kf_encoding kf = Some enc \<and>
                compare_faces (Some q) enc > thr)) \<and>
         (scores q known \<noteq> [] \<and> Max (set (scores q known)) = thr \<longrightarrow>
            \<not> identified (match_face thr face q known))"
proof -
  have iff: "identified (match_face thr face q known) \<longleftrightarrow>
             (\<exists>s \<in> set (scores q known). s > thr)"
  proof (cases "\<exists>s \<in> set (scores q known). s > thr")
    case True
    then obtain s where "s \<in> set (scores q known)" "s > thr" by blast
    from loop_start_above [OF assms this] True show ?thesis
      by (auto simp: match_face_def)
  next
    case False
    from loop_start_below [OF this] False show ?thesis
      by (simp add: match_face_def)
  qed
  have ex: "(\<exists>s \<in> set (scores q known). s > thr) \<longleftrightarrow>
            (\<exists>kf \<in> set known. \<exists>enc. kf_encoding kf = Some enc \<and>
                compare_faces (Some q) enc > thr)"
    by (auto simp: set_scores)
  have "\<not> (\<exists>s \<in> set (scores q known). s > thr)"
    if "scores q known \<noteq> []" "Max (set (scores q known)) = thr"
  proof
    assume "\<exists>s \<in> set (scores q known). s > thr"
    then obtain s where s: "s \<in> set (scores q known)" "s > thr" by blast
    then have "s \<le> Max (set (scores q known))" by (intro Max_ge) auto
    with that(2) s(2) show False by simp
  qed
  with iff ex show ?thesis by blast
qed

text \<open>
  Claim C3, as amended. With a threshold that is not negative and at least one
  known face with an encoding, the similarity reported is the greatest of the
  similarities when that one is strictly greater than the threshold, and 0.0
  otherwise; when \<open>identified\<close> is true, the matched entry is the first known
  face, in the order of the list, whose similarity is the greatest one.
\<close>

theorem similarity_is_max_above_threshold:
  assumes "0 \<le> thr" and "scores q known \<noteq> []"
  shows "similarity (match_face thr face q known) =
           (if Max (set (scores q known)) > thr then Max (set (scores q known)) else 0) \<and>
         (identified (match_face thr face q known) \<longrightarrow>
            student_info (match_face thr face q known) =
              find (\<lambda>kf. score_of q kf = Some (Max (set (scores q known)))) known)"
proof (cases "\<exists>s \<in> set (scores q known). s > thr")
  case True
  then obtain s where s: "s \<in> set (scores q known)" "s > thr" by blast
  then have "s \<le> Max (set (scores q known))" by (intro Max_ge) auto
  with s(2) have "Max (set (scores q known)) > thr" by simp
  with loop_start_above(1) [OF assms(1) s] show ?thesis
    by (simp add: match_face_def)
next
  case False
  have "Max (set (scores q known)) \<in> set (scores q known)"
    using assms(2) by (intro Max_in) auto
  with False have "\<not> Max (set (scores q known)) > thr" by blast
  with loop_start_below [OF False] show ?thesis
    by (simp add: match_face_def)
qed

lemma identify_face_empty:
  "map (\<lambda>r. (identified r, similarity r, student_info r)) (identify_face self [] face) =
     replicate (length (identify_face self [] face)) (False, 0, None)"
  by (simp add: identify_face_def match_face_def split: option.splits np_array.splits)

text \<open>
  Claim C7. Against an empty list of known faces, for every encoding and every
  threshold, the match has \<open>identified = False\<close>, similarity 0.0 and no
  student; so has every result of \<open>identify_faces\<close>, which returns a list.
\<close>

theorem empty_gallery_no_match:
  "match_face thr face q [] =
     \<lparr>res_bbox = bbox face, res_confidence = confidence face, similarity = 0,
      identified = False, student_info = None, res_encoding = Array q\<rparr> \<and>
   map (\<lambda>r. (identified r, similarity r, student_info r)) (identify_faces self img []) =
     replicate (length (identify_faces self img [])) (False, 0, None)"
proof -
  have "map (\<lambda>r. (identified r, similarity r, student_info r))
          (concat (map (identify_face self []) faces)) =
        replicate (length (concat (map (identify_face self []) faces))) (False, 0, None)"
    for faces
    by (induction faces) (simp_all add: identify_face_empty replicate_add)
  then show ?thesis
    by (simp add: identify_faces_def match_face_def)
qed

lemma sqrt_25: "sqrt 25 = 5"
  by (rule real_sqrt_unique) simp_all

lemma compare_faces_a: "compare_faces (Some [1, 0]) (Some [0, 1]) = 1 / 2"
  by (simp add: compare_faces_def np_dot_def linalg_norm_def)

lemma compare_faces_a': "compare_faces (Some [1, 0]) (Some [0, 2]) = 1 / 2"
  by (simp add: compare_faces_def np_dot_def linalg_norm_def)

lemma compare_faces_b: "compare_faces (Some [1, 0]) (Some [- 3, 4]) = 1 / 5"
  by (simp add: compare_faces_def np_dot_def linalg_norm_def sqrt_25)

lemma scores_examples:
  "scores [1, 0] [known_a] = [1 / 2]"
  "scores [1, 0] [known_b] = [1 / 5]"
  "scores [1, 0] [known_b, known_a, known_a'] = [1 / 5, 1 / 2, 1 / 2]"
  by (simp_all add: scores_Cons scores_Nil score_of_def known_a_def known_a'_def known_b_def
      compare_faces_a compare_faces_a' compare_faces_b)

theorem identified_iff_above_threshold_witness:
  "(0::real) \<le> 3 / 10 \<and> identified (match_face (3 / 10) face0 [1, 0] [known_a]) \<and>
   (0::real) \<le> 1 / 2 \<and> scores [1, 0] [known_a] \<noteq> [] \<and>
   Max (set (scores [1, 0] [known_a])) = 1 / 2 \<and>
   \<not> identified (match_face (1 / 2) face0 [1, 0] [known_a])"
proof -
  have sc: "scores [1, 0] [known_a] = [1 / 2]" by (rule scores_examples)
  have "\<exists>kf \<in> set [known_a]. \<exists>enc. kf_encoding kf = Some enc \<and>
          compare_faces (Some [1, 0]) enc > 3 / 10"
    by (simp add: known_a_def compare_faces_a)
  with identified_iff_above_threshold [of "3 / 10" face0 "[1, 0]" "[known_a]"]
  have a: "identified (match_face (3 / 10) face0 [1, 0] [known_a])" by simp
  have le: "(0::real) \<le> 1 / 2" by simp
  have "scores [1, 0] [known_a] \<noteq> [] \<and> Max (set (scores [1, 0] [known_a])) = 1 / 2"
    using sc by simp
  with identified_iff_above_threshold [OF le, of face0 "[1, 0]" "[known_a]"]
  have b: "\<not> identified (match_face (1 / 2) face0 [1, 0] [known_a])" by blast
  from a b sc show ?thesis by simp
qed

theorem similarity_is_max_above_threshold_witness:
  "(0::real) \<le> 3 / 10 \<and> scores [1, 0] [known_b, known_a, known_a'] \<noteq> [] \<and>
   similarity (match_face (3 / 10) face0 [1, 0] [known_b, known_a, known_a']) = 1 / 2 \<and>
   identified (match_face (3 / 10) face0 [1, 0] [known_b, known_a, known_a']) \<and>
   student_info (match_face (3 / 10) face0 [1, 0] [known_b, known_a, known_a']) = Some known_a"
proof -
  let ?known = "[known_b, known_a, known_a']"
  have sc: "scores [1, 0] ?known = [1 / 5, 1 / 2, 1 / 2]" by (rule scores_examples)
  then have mx: "Max (set (scores [1, 0] ?known)) = 1 / 2" by simp
  have fnd: "find (\<lambda>kf. score_of [1, 0] kf = Some (1 / 2)) ?known = Some known_a"
    by (simp add: score_of_def known_a_def known_b_def compare_faces_a compare_faces_b)
  have idn: "identified (match_face (3 / 10) face0 [1, 0] ?known)"
    by (simp add: match_face_def known_a_def known_a'_def known_b_def
        compare_faces_a compare_faces_a' compare_faces_b)
  from similarity_is_max_above_threshold [of "3 / 10" "[1, 0]" ?known face0] sc mx fnd idn
  show ?thesis by simp
qed

text \<open>
  Claim C3 as stated fails: one known face with similarity 0.2, below the
  threshold 0.3, and the similarity reported is 0.0, not 0.2.
\<close>

theorem similarity_is_max_counterexample:
  "scores [1, 0] [known_b] \<noteq> [] \<and>
   Max (set (scores [1, 0] [known_b])) = 1 / 5 \<and>
   similarity (match_face (3 / 10) face0 [1, 0] [known_b]) = 0 \<and>
   similarity (match_face (3 / 10) face0 [1, 0] [known_b]) \<noteq>
     Max (set (scores [1, 0] [known_b]))"
proof -
  have sc: "scores [1, 0] [known_b] = [1 / 5]" by (rule scores_examples)
  have sim: "similarity (match_face (3 / 10) face0 [1, 0] [known_b]) = 0"
    by (simp add: match_face_def known_b_def compare_faces_b)
  from sc sim show ?thesis by simp
qed

section \<open>The norm of an encoding\<close>

lemma sum_squares_simps [simp]:
  "sum_squares [] = 0"
  "sum_squares (x # xs) = x * x + sum_squares xs"
  by (simp_all add: sum_squares_def)

lemma sum_squares_nonneg: "0 \<le> sum_squares a"
  by (induction a) simp_all

lemma sum_squares_zero_iff: "sum_squares a = 0 \<longleftrightarrow> (\<forall>x \<in> set a. x = 0)"
proof (induction a)
  case Nil
  then show ?case by simp
next
  case (Cons x xs)
  have "x * x + sum_squares xs = 0 \<longleftrightarrow> x * x = 0 \<and> sum_squares xs = 0"
    using sum_squares_nonneg [of xs] by (intro add_nonneg_eq_0_iff) simp_all
  with Cons show ?case by simp
qed

lemma linalg_norm_sum_squares: "linalg_norm a = sqrt (sum_squares a)"
  by (simp add: linalg_norm_def sum_squares_def)

lemma linalg_norm_nonneg: "0 \<le> linalg_norm a"
  by (simp add: linalg_norm_sum_squares sum_squares_nonneg)

lemma linalg_norm_zero_iff: "linalg_norm a = 0 \<longleftrightarrow> (\<forall>x \<in> set a. x = 0)"
  by (simp add: linalg_norm_sum_squares sum_squares_zero_iff)

section \<open>Detection, encoding and the list of results\<close>

lemma pixel_bbox_examples:
  "pixel_bbox image0 det_left = (0, 0, 2, 2)"
  "pixel_bbox image0 det_right = (2, 0, 2, 2)"
  "pixel_bbox image0 det_out = (5, 1, - 1, 2)"
  by (simp_all add: pixel_bbox_def image0_def image_width_def py_int_def
      det_left_def det_right_def det_out_def Let_def)

lemma make_face_info_examples:
  "make_face_info image0 det_left =
     Inr \<lparr>bbox = (0, 0, 2, 2), confidence = 9 / 10, landmarks = [],
          face_region = [[128, 128], [128, 128]]\<rparr>"
  "make_face_info image0 det_right =
     Inr \<lparr>bbox = (2, 0, 2, 2), confidence = 8 / 10, landmarks = [],
          face_region = [[128, 128], [128, 128]]\<rparr>"
  "make_face_info image0 det_out =
     Inr \<lparr>bbox = (5, 1, - 1, 2), confidence = 8 / 10, landmarks = [],
          face_region = [[], []]\<rparr>"
    apply (simp_all add: make_face_info_def pixel_bbox_examples)
    apply (simp_all add: det_left_def det_right_def det_out_def extract_key_landmarks_def
      py_slice_def image0_def Let_def)
  done

lemma detect_faces_recognizer0:
  "detect_faces recognizer0 (Some image0) =
     Inr [\<lparr>bbox = (0, 0, 2, 2), confidence = 9 / 10, landmarks = [],
           face_region = [[128, 128], [128, 128]]\<rparr>,
          \<lparr>bbox = (2, 0, 2, 2), confidence = 8 / 10, landmarks = [],
           face_region = [[128, 128], [128, 128]]\<rparr>,
          \<lparr>bbox = (5, 1, - 1, 2), confidence = 8 / 10, landmarks = [],
           face_region = [[], []]\<rparr>]"
  by (simp add: detect_faces_def detect_faces_try_def recognizer0_def init_def
      make_face_info_examples)

text \<open>
  Claim C8, on the code. On an image of 4 by 4 pixels, a detection whose relative
  box starts at \<open>xmin = 1.25\<close> gets the box \<open>(5, 1, -1, 2)\<close>: it starts right
  of the image and its width is negative, against the claim and against the
  comment of line 87.
\<close>

theorem bbox_outside_image:
  "map_sum id (map bbox) (detect_faces recognizer0 (Some image0)) =
     Inr [(0, 0, 2, 2), (2, 0, 2, 2), (5, 1, - 1, 2)] \<and>
   length image0 = 4 \<and> image_width image0 = 4 \<and>
   pixel_bbox image0 det_out = (5, 1, - 1, 2)"
proof -
  have "length image0 = 4 \<and> image_width image0 = 4"
    by (simp add: image0_def image_width_def)
  then show ?thesis by (simp add: detect_faces_recognizer0 pixel_bbox_examples)
qed

text \<open>
  What the two \<open>max\<close> and the two \<open>min\<close> of \<open>detect_faces\<close> ensure for every
  detection, and what they ensure for a detection that starts left of the right
  edge and above the lower edge of the image and is at least one pixel wide and
  high: for those the box lies within the image and is not empty.
\<close>

lemma pixel_bbox_bounds:
  "pixel_bbox img detection = (x, y, w, h) \<Longrightarrow>
   0 \<le> x \<and> 0 \<le> y \<and> x + w \<le> int (image_width img) \<and> y + h \<le> int (length img)"
  by (auto simp: pixel_bbox_def Let_def)

lemma pixel_bbox_within_image:
  assumes "pixel_bbox img detection = (x, y, w, h)"
    and "py_int (bbox_xmin detection * real_of_int (int (image_width img))) < int (image_width img)"
    and "py_int (bbox_ymin detection * real_of_int (int (length img))) < int (length img)"
    and "1 \<le> py_int (bbox_width detection * real_of_int (int (image_width img)))"
    and "1 \<le> py_int (bbox_height detection * real_of_int (int (length img)))"
  shows "0 \<le> x \<and> x < int (image_width img) \<and> 0 < w \<and> x + w \<le> int (image_width img) \<and>
         0 \<le> y \<and> y < int (length img) \<and> 0 < h \<and> y + h \<le> int (length img)"
proof -
  have "image_width img \<noteq> 0"
  proof
    assume "image_width img = 0"
    with assms(4) show False by (simp add: py_int_def)
  qed
  moreover have "length img \<noteq> 0"
  proof
    assume "length img = 0"
    with assms(5) show False by (simp add: py_int_def)
  qed
  ultimately show ?thesis
    using assms by (auto simp: pixel_bbox_def Let_def)
qed

text \<open>The outcomes of \<open>detect_faces\<close> on an image.\<close>

lemma detect_faces_Some:
  "detect_faces self (Some img) =
     (case detect_faces_try self img of Inl e \<Rightarrow> Inr [] | Inr faces \<Rightarrow> Inr faces)"
  by (simp add: detect_faces_def)

lemma detect_faces_try_engine_error:
  "face_detection_process self img = Inl e \<Longrightarrow> \<exists>e'. detect_faces_try self img = Inl e'"
  by (simp add: detect_faces_try_def split: sum.splits)

lemma detect_faces_try_print_error:
  "stdout_print self (Processing_image (length img) (image_width img)) = Inl e \<Longrightarrow>
   detect_faces_try self img = Inl e"
  by (simp add: detect_faces_try_def)

lemma detect_faces_try_no_detection:
  "face_detection_process self img = Inr [] \<Longrightarrow>
   detect_faces_try self img = Inr [] \<or> (\<exists>e. detect_faces_try self img = Inl e)"
  by (simp add: detect_faces_try_def split: sum.splits)

text \<open>
  For every image that is not \<open>None\<close>, whatever the engine and the standard
  output do, \<open>detect_faces\<close> returns a list and raises nothing: the empty list
  when the detection engine raises, when a print of the \<open>try\<close> block raises,
  when a step of the loop raises, and when the engine detects no face. For
  \<open>None\<close> it returns the empty list when the print of line 58 returns.
\<close>

lemma detect_faces_returns_list:
  "(\<exists>faces. detect_faces self (Some img) = Inr faces) \<and>
   (face_detection_process self img = Inl e \<longrightarrow> detect_faces self (Some img) = Inr []) \<and>
   (stdout_print self (Processing_image (length img) (image_width img)) = Inl e \<longrightarrow>
      detect_faces self (Some img) = Inr []) \<and>
   (detect_faces_try self img = Inl e \<longrightarrow> detect_faces self (Some img) = Inr []) \<and>
   (face_detection_process self img = Inr [] \<longrightarrow> detect_faces self (Some img) = Inr []) \<and>
   (stdout_print self Image_is_None = Inr () \<longrightarrow> detect_faces self None = Inr [])"
proof (intro conjI impI)
  show "\<exists>faces. detect_faces self (Some img) = Inr faces"
    by (cases "detect_faces_try self img") (simp_all add: detect_faces_Some)
next
  assume "face_detection_process self img = Inl e"
  from detect_faces_try_engine_error [OF this]
  show "detect_faces self (Some img) = Inr []" by (auto simp: detect_faces_Some)
next
  assume "stdout_print self (Processing_image (length img) (image_width img)) = Inl e"
  from detect_faces_try_print_error [OF this]
  show "detect_faces self (Some img) = Inr []" by (simp add: detect_faces_Some)
next
  assume "detect_faces_try self img = Inl e"
  then show "detect_faces self (Some img) = Inr []" by (simp add: detect_faces_Some)
next
  assume "face_detection_process self img = Inr []"
  from detect_faces_try_no_detection [OF this]
  show "detect_faces self (Some img) = Inr []" by (auto simp: detect_faces_Some)
next
  assume "stdout_print self Image_is_None = Inr ()"
  then show "detect_faces self None = Inr []" by (simp add: detect_faces_def)
qed


lemma identify_face_embeddable:
  "map (\<lambda>r. (res_bbox r, res_confidence r)) (identify_face self known face) =
     (if generate_face_encoding self (Some (face_region face)) \<noteq> None
      then [(bbox face, confidence face)] else [])"
  by (simp add: identify_face_def match_face_def case_prod_beta
      split: option.splits np_array.splits)

lemma concat_identify_face:
  "map (\<lambda>r. (res_bbox r, res_confidence r)) (concat (map (identify_face self known) faces)) =
     map (\<lambda>face. (bbox face, confidence face))
       (filter (\<lambda>face. generate_face_encoding self (Some (face_region face)) \<noteq> None) faces)"
  by (induction faces) (simp_all add: identify_face_embeddable)

text \<open>
  Claim C4, as amended. \<open>identify_faces\<close> reports the detected faces that have
  an encoding, in the order of detection, with their boxes and confidences; a
  face whose encoding is \<open>None\<close> is left out.
\<close>

theorem identify_faces_embeddable_only:
  "map (\<lambda>r. (res_bbox r, res_confidence r)) (identify_faces self img known) =
     map (\<lambda>face. (bbox face, confidence face))
       (filter (\<lambda>face. generate_face_encoding self (Some (face_region face)) \<noteq> None)
          (detected_faces self img)) \<and>
   length (identify_faces self img known) =
     length (filter (\<lambda>face. generate_face_encoding self (Some (face_region face)) \<noteq> None)
          (detected_faces self img))"
proof -
  have m: "map (\<lambda>r. (res_bbox r, res_confidence r)) (identify_faces self img known) =
     map (\<lambda>face. (bbox face, confidence face))
       (filter (\<lambda>face. generate_face_encoding self (Some (face_region face)) \<noteq> None)
          (detected_faces self img))"
    by (simp add: identify_faces_def concat_identify_face)
  have "length (map (\<lambda>r. (res_bbox r, res_confidence r)) (identify_faces self img known)) =
        length (map (\<lambda>face. (bbox face, confidence face))
          (filter (\<lambda>face. generate_face_encoding self (Some (face_region face)) \<noteq> None)
             (detected_faces self img)))"
    by (simp only: m)
  then have "length (identify_faces self img known) =
     length (filter (\<lambda>face. generate_face_encoding self (Some (face_region face)) \<noteq> None)
          (detected_faces self img))"
    by (simp only: length_map)
  with m show ?thesis by (rule conjI)
qed

lemma generate_examples:
  "generate_face_encoding recognizer0 (Some [[128, 128], [128, 128]]) = Some (Array [1, 0, 0])"
  "generate_face_encoding recognizer0 (Some [[], []]) = None"
  by (simp_all add: generate_face_encoding_def recognizer0_def init_def image_size_def
      normalize_def linalg_norm_def)

text \<open>
  Claim C4 as stated fails: three faces are detected, the crop of the third is
  empty and has no encoding, and \<open>identify_faces\<close> returns two results.
\<close>

theorem undetermined_face_dropped_counterexample:
  "length (detected_faces recognizer0 (Some image0)) = 3 \<and>
   generate_face_encoding recognizer0
     (Some (face_region (detected_faces recognizer0 (Some image0) ! 2))) = None \<and>
   length (identify_faces recognizer0 (Some image0) []) = 2 \<and>
   map res_bbox (identify_faces recognizer0 (Some image0) []) = [(0, 0, 2, 2), (2, 0, 2, 2)]"
  by (simp add: identify_faces_def detected_faces_def detect_faces_recognizer0
      identify_face_def generate_examples match_face_def)

lemma sum_squares_map_divide:
  "sum_squares (map (\<lambda>x. x / c) a) = sum_squares a / (c * c)"
  by (induction a) (simp_all add: add_divide_distrib)

lemma linalg_norm_normalized:
  assumes "linalg_norm a \<noteq> 0"
  shows "linalg_norm (map (\<lambda>x. x / linalg_norm a) a) = 1"
proof -
  have pos: "0 < sum_squares a"
    using assms sum_squares_nonneg [of a] by (simp add: linalg_norm_sum_squares less_le)
  have "linalg_norm a * linalg_norm a = sum_squares a"
    using sum_squares_nonneg [of a] by (simp add: linalg_norm_sum_squares)
  then have "sum_squares (map (\<lambda>x. x / linalg_norm a) a) = 1"
    using pos by (simp add: sum_squares_map_divide)
  then show ?thesis by (simp add: linalg_norm_sum_squares)
qed

lemma length_generate_basic_encoding:
  "length (generate_basic_encoding self face_image) = encoding_size self"
  by (simp add: generate_basic_encoding_def Let_def split: sum.splits)

lemma generate_basic_encoding_error:
  "gray_resize_flatten self face_image = Inl e \<Longrightarrow>
   linalg_norm (generate_basic_encoding self face_image) = 0"
  by (simp add: generate_basic_encoding_def linalg_norm_zero_iff)

lemma generate_basic_encoding_zero:
  assumes "gray_resize_flatten self face_image = Inr gray"
  shows "linalg_norm (generate_basic_encoding self face_image) = 0 \<longleftrightarrow>
         (\<forall>v \<in> set (take (encoding_size self) gray). v = 0)"
proof (cases "length gray > encoding_size self")
  case True
  with assms show ?thesis
    by (simp add: generate_basic_encoding_def linalg_norm_zero_iff take_map Let_def)
next
  case False
  with assms show ?thesis
    by (auto simp: generate_basic_encoding_def linalg_norm_zero_iff Let_def)
qed

text \<open>
  Claim C5, as amended. On the landmark path, when the landmark coordinates kept
  have a norm that is not zero, the encoding returned has norm 1. On the
  fallback path the encoding returned is that of \<open>_generate_basic_encoding\<close>,
  of length \<open>encoding_size\<close>; it is returned also when it is the zero vector,
  which it is exactly when the pixel values kept are all 0, or when the
  fallback raised.
\<close>

theorem generate_face_encoding_norm:
  "(image_size img \<noteq> 0 \<and> resize_to_rgb self img = Inr face_rgb \<and>
    face_mesh_process self face_rgb = Inr (Some landmark_points) \<and>
    linalg_norm (take (encoding_size self) landmark_points) \<noteq> 0 \<longrightarrow>
      (\<exists>encoding. generate_face_encoding self (Some img) = Some (Array encoding) \<and>
         linalg_norm encoding = 1)) \<and>
   (image_size img \<noteq> 0 \<and> resize_to_rgb self img = Inr face_rgb \<and>
    face_mesh_process self face_rgb = Inr None \<longrightarrow>
      generate_face_encoding self (Some img) =
        Some (Array (generate_basic_encoding self face_rgb)) \<and>
      length (generate_basic_encoding self face_rgb) = encoding_size self \<and>
      (\<forall>gray. gray_resize_flatten self face_rgb = Inr gray \<longrightarrow>
         (linalg_norm (generate_basic_encoding self face_rgb) = 0 \<longleftrightarrow>
          (\<forall>v \<in> set (take (encoding_size self) gray). v = 0))) \<and>
      (\<forall>e. gray_resize_flatten self face_rgb = Inl e \<longrightarrow>
         linalg_norm (generate_basic_encoding self face_rgb) = 0))"
proof (intro conjI impI allI; (elim conjE)?)
  assume "image_size img \<noteq> 0" "resize_to_rgb self img = Inr face_rgb"
    "face_mesh_process self face_rgb = Inr (Some landmark_points)"
    "linalg_norm (take (encoding_size self) landmark_points) \<noteq> 0"
  then show "\<exists>encoding. generate_face_encoding self (Some img) = Some (Array encoding) \<and>
         linalg_norm encoding = 1"
    by (simp add: generate_face_encoding_def normalize_def linalg_norm_normalized)
next
  assume "image_size img \<noteq> 0" "resize_to_rgb self img = Inr face_rgb"
    "face_mesh_process self face_rgb = Inr None"
  then show "generate_face_encoding self (Some img) =
        Some (Array (generate_basic_encoding self face_rgb))"
    by (simp add: generate_face_encoding_def)
next
  show "length (generate_basic_encoding self face_rgb) = encoding_size self"
    by (rule length_generate_basic_encoding)
next
  fix gray assume "gray_resize_flatten self face_rgb = Inr gray"
  then show "linalg_norm (generate_basic_encoding self face_rgb) = 0 \<longleftrightarrow>
          (\<forall>v \<in> set (take (encoding_size self) gray). v = 0)"
    by (rule generate_basic_encoding_zero)
next
  fix e assume "gray_resize_flatten self face_rgb = Inl e"
  then show "linalg_norm (generate_basic_encoding self face_rgb) = 0"
    by (rule generate_basic_encoding_error)
qed

lemma generate_basic_encoding_examples:
  "generate_basic_encoding recognizer_fallback black_face = replicate 128 0"
  "generate_basic_encoding recognizer_fallback gray_face = replicate 128 (128 / 255)"
  by (simp_all add: generate_basic_encoding_def recognizer_fallback_def init_def
      black_face_def gray_face_def)

text \<open>
  Claim C5 as stated fails: for a black crop without landmarks the generator
  returns the vector of 128 zeros, whose norm is 0.
\<close>

theorem zero_encoding_returned_counterexample:
  "generate_face_encoding recognizer_fallback (Some black_face) =
     Some (Array (replicate 128 0)) \<and>
   linalg_norm (replicate 128 0) = 0"
proof -
  have "generate_face_encoding recognizer_fallback (Some black_face) =
        Some (Array (generate_basic_encoding recognizer_fallback black_face))"
    by (simp add: generate_face_encoding_def recognizer_fallback_def init_def
        black_face_def image_size_def)
  then show ?thesis
    by (simp add: generate_basic_encoding_examples linalg_norm_zero_iff)
qed

theorem generate_face_encoding_norm_witness:
  "image_size gray_face \<noteq> 0 \<and>
   resize_to_rgb recognizer0 gray_face = Inr gray_face \<and>
   face_mesh_process recognizer0 gray_face = Inr (Some [1, 0, 0]) \<and>
   linalg_norm (take (encoding_size recognizer0) [1, 0, 0]) \<noteq> 0 \<and>
   (\<exists>encoding. generate_face_encoding recognizer0 (Some gray_face) = Some (Array encoding) \<and>
      linalg_norm encoding = 1) \<and>
   resize_to_rgb recognizer_fallback gray_face = Inr gray_face \<and>
   face_mesh_process recognizer_fallback gray_face = Inr None \<and>
   gray_resize_flatten recognizer_fallback gray_face = Inr (replicate 1024 128) \<and>
   generate_face_encoding recognizer_fallback (Some gray_face) =
     Some (Array (replicate 128 (128 / 255))) \<and>
   linalg_norm (replicate 128 (128 / 255)) \<noteq> 0"
proof -
  have a: "image_size gray_face \<noteq> 0"
    "resize_to_rgb recognizer0 gray_face = Inr gray_face"
    "face_mesh_process recognizer0 gray_face = Inr (Some [1, 0, 0])"
    "linalg_norm (take (encoding_size recognizer0) [1, 0, 0]) \<noteq> 0"
    by (simp_all add: gray_face_def image_size_def recognizer0_def init_def linalg_norm_def)
  have b: "resize_to_rgb recognizer_fallback gray_face = Inr gray_face"
    "face_mesh_process recognizer_fallback gray_face = Inr None"
    "gray_resize_flatten recognizer_fallback gray_face = Inr (replicate 1024 128)"
    by (simp_all add: gray_face_def recognizer_fallback_def init_def)
  have c: "encoding_size recognizer_fallback = 128"
    by (simp add: recognizer_fallback_def init_def)
  note t1 = generate_face_encoding_norm [of gray_face recognizer0 gray_face "[1, 0, 0]"]
  note t2 = generate_face_encoding_norm [of gray_face recognizer_fallback gray_face]
  from t1 a have p: "\<exists>encoding. generate_face_encoding recognizer0 (Some gray_face) =
      Some (Array encoding) \<and> linalg_norm encoding = 1"
    by blast
  from t2 a(1) b have q: "generate_face_encoding recognizer_fallback (Some gray_face) =
        Some (Array (generate_basic_encoding recognizer_fallback gray_face))"
    and r: "linalg_norm (generate_basic_encoding recognizer_fallback gray_face) = 0 \<longleftrightarrow>
          (\<forall>v \<in> set (take (encoding_size recognizer_fallback) (replicate 1024 128)). v = (0::nat))"
    by blast+
  from r have "linalg_norm (replicate 128 (128 / 255)) \<noteq> 0"
    by (simp add: generate_basic_encoding_examples c)
  with a b p q show ?thesis
    by (simp add: generate_basic_encoding_examples)
qed

end
